theory Spec2Isabelle
  imports Main "HOL-Library.Sublist"
begin

section \<open>The flamethrower router (src/lib/router.ts)\<close>

text \<open>
  The router is a class with two fields of its own (\<open>enabled\<close>, \<open>prefetched\<close>) and its
  merged options. Everything else it touches belongs to the browser: the location, the
  links of the document, the children of the head, the history stack, the console and the
  events dispatched on the window. The model passes both parts as a pair
  \<open>(router, host)\<close>; each method returns the updated pair. Every observable call is also
  appended to one ordered \<open>trace\<close>, so that statements about the order of effects can be
  made.

  An asynchronous cycle is modelled run to completion: the outcome that the network
  delivers for its one \<open>fetch\<close> is a parameter of \<open>reconstructDOM\<close>.
\<close>

subsection \<open>Data\<close>

text \<open>A thrown JavaScript value: an error object with its message. \<open>ReferenceError\<close> is
  what reading an undeclared global (\<open>window\<close>, \<open>document\<close>) throws.\<close>

datatype error = Error string | ReferenceError string

text \<open>
  \<open>FlamethrowerOptions\<close> as the caller supplies it: every property may be absent
  (\<open>None\<close>), and a property that is present holds \<open>undefined\<close> or a boolean.
  \<open>defaultOpts\<close> and the merged options have all three properties; the router reads
  them for their truth value only (\<open>if (this.opts.prefetch)\<close>, \<open>this.opts.log &&\<close>,
  \<open>this.opts.pageTransitions &&\<close>), and that truth value is what \<open>options\<close> records.
\<close>

datatype optval = JSUndefined | JSBool bool

fun truthy :: "optval \<Rightarrow> bool" where
  "truthy JSUndefined = False"
| "truthy (JSBool b) = b"

record FlamethrowerOptions =
  log_opt :: "optval option"
  prefetch_opt :: "optval option"
  pageTransitions_opt :: "optval option"

record options =
  opt_log :: bool
  opt_prefetch :: bool
  opt_pageTransitions :: bool

record router =
  enabled :: bool
  prefetched :: "string list"
  opts :: options

text \<open>\<open>RouteChangeData\<close>: the destructured argument \<open>{ type, next, prev }\<close>.\<close>

record RouteChangeData =
  rc_type :: string
  rc_next :: string
  rc_prev :: string

text \<open>A child of the document head: a prefetch link made by the router, or any other tag.\<close>

datatype head_el = PrefetchLink string | Tag string

text \<open>The parsed next document, as far as the router and its helpers look at it.\<close>

record page =
  page_head :: "head_el list"
  page_links :: "string list"
  page_scripts :: "string list"

text \<open>The observable calls, in the order they are made.\<close>

datatype effect =
    ConsoleLog "string list"
  | ConsoleWarn string
  | ConsoleError string error
  | ConsoleTime string
  | ConsoleTimeEnd string
  | AddEventListener string string
  | DispatchEvent string "error option"
  | PushState string
  | Fetch string
  | ReadText
  | FormatNextDocument
  | MergeHead
  | TransitionStart
  | ReplaceBody
  | ExecScript string
  | ScrollToTop string
  | AppendChild head_el

text \<open>
  The host. \<open>has_window\<close> and \<open>has_document\<close> say whether the globals \<open>window\<close> and
  \<open>document\<close> are declared at all: reading an undeclared global throws a
  \<open>ReferenceError\<close>, also under \<open>?.\<close>. On a host with a window, \<open>has_history\<close> is the
  truth value of \<open>window?.history\<close>; \<open>can_transition\<close> is that of \<open>document.createDocumentTransition\<close>; \<open>links\<close> are the
  \<open>href\<close>s of \<open>document.links\<close> in document order; \<open>parse\<close> is the markup parser
  behind \<open>formatNextDocument\<close> and \<open>new_URL\<close> the \<open>URL\<close> constructor (path, then base).
\<close>

record host =
  has_window :: bool
  has_document :: bool
  has_history :: bool
  can_transition :: bool
  origin :: string
  href :: string
  links :: "string list"
  head :: "head_el list"
  scripts :: "string list"
  history_stack :: "string list"
  scroll :: nat
  parse :: "string \<Rightarrow> error + page"
  new_URL :: "string \<Rightarrow> string \<Rightarrow> error + string"
  trace :: "effect list"

text \<open>What \<open>await fetch(next)\<close> delivers: a rejection, or a response with its status and
  what \<open>await res.text()\<close> delivers in turn.\<close>

record response =
  status :: nat
  text_result :: "error + string"

datatype fetch_outcome = NetworkFailure error | Response response

text \<open>What the promise returned by \<open>reconstructDOM\<close> settles to.\<close>

datatype jsvalue = Undefined | JSFalse

datatype settled = Fulfilled jsvalue | Rejected error

subsection \<open>Strings and the \<open>Set\<close>\<close>

text \<open>\<open>String.prototype.includes\<close>: \<open>s\<close> occurs in \<open>v\<close> as a contiguous substring.\<close>

fun str_includes :: "string \<Rightarrow> string \<Rightarrow> bool" where
  "str_includes [] s = (s = [])"
| "str_includes (c # cs) s = (prefix s (c # cs) \<or> str_includes cs s)"

text \<open>\<open>Set.prototype.has\<close> and \<open>Set.prototype.add\<close> on a set kept in insertion order.\<close>

definition has :: "string list \<Rightarrow> string \<Rightarrow> bool" where
  "has xs v = (v \<in> set xs)"

definition add :: "string list \<Rightarrow> string \<Rightarrow> string list" where
  "add xs v = (if has xs v then xs else xs @ [v])"

text \<open>The glyphs of the log messages, as their UTF-8 bytes.\<close>

definition zap :: string where
  "zap = [CHR 0xE2, CHR 0x9A, CHR 0xA1]"

definition stopwatch :: string where
  "stopwatch = [CHR 0xE2, CHR 0x8F, CHR 0xB1, CHR 0xEF, CHR 0xB8, CHR 0x8F]"

definition boom_router_fetch_failed :: string where
  "boom_router_fetch_failed = [CHR 0xF0, CHR 0x9F, CHR 0x92, CHR 0xA5] @ '' router fetch failed''"

definition cloud_prefetched :: string where
  "cloud_prefetched =
     [CHR 0xF0, CHR 0x9F, CHR 0x8C, CHR 0xA9, CHR 0xEF, CHR 0xB8, CHR 0x8F] @ '' prefetched''"

definition hurt_cant_prefetch :: string where
  "hurt_cant_prefetch = [CHR 0xF0, CHR 0x9F, CHR 0xA4, CHR 0x95] @ '' can't prefetch''"

subsection \<open>The helpers imported from ./handlers and ./dom\<close>

definition emit :: "effect \<Rightarrow> host \<Rightarrow> host" where
  "emit e h = h\<lparr>trace := trace h @ [e]\<rparr>"

definition addToPushState :: "string \<Rightarrow> host \<Rightarrow> host" where
  \<comment> \<open>Modelled from the spec: \<open>addToPushState\<close> of src/lib/handlers.ts, which is not among
      the sources. "push next onto the host's navigable-history stack ... the browser's
      address bar has already changed".\<close>
  "addToPushState url h =
     emit (PushState url) (h\<lparr>history_stack := history_stack h @ [url], href := url\<rparr>)"

definition scrollToTop :: "string \<Rightarrow> host \<Rightarrow> host" where
  \<comment> \<open>Modelled from the spec: \<open>scrollToTop\<close> of src/lib/handlers.ts. "for pop kind, scroll
      position is ... not reset; for link and programmatic kinds, scroll resets to the top".\<close>
  "scrollToTop t h =
     (if t \<in> set [''link'', ''go''] then emit (ScrollToTop t) (h\<lparr>scroll := 0\<rparr>) else h)"

definition formatNextDocument :: "string \<Rightarrow> host \<Rightarrow> (error + page) \<times> host" where
  \<comment> \<open>Modelled from the spec: \<open>formatNextDocument\<close> of src/lib/dom.ts. "the response body
      (markup text) is parsed into a structured document representation exposing a head
      subtree and a body subtree"; a parse failure is an error of the cycle.\<close>
  "formatNextDocument html h = (parse h html, emit FormatNextDocument h)"

definition mergeHead :: "page \<Rightarrow> host \<Rightarrow> host" where
  \<comment> \<open>Modelled from the spec: \<open>mergeHead\<close> of src/lib/dom.ts. "it must reconcile tags, not
      naively replace": tags of the live head that the new head has stay, the others go,
      and the new head's other tags are appended.\<close>
  "mergeHead nextDoc h =
     emit MergeHead
       (h\<lparr>head := filter (\<lambda>t. t \<in> set (page_head nextDoc)) (head h)
                   @ filter (\<lambda>t. t \<notin> set (head h)) (page_head nextDoc)\<rparr>)"

definition replaceBody :: "page \<Rightarrow> host \<Rightarrow> host" where
  \<comment> \<open>Modelled from the spec: \<open>replaceBody\<close> of src/lib/dom.ts. "the body subtree replaces
      the live body wholesale".\<close>
  "replaceBody nextDoc h =
     emit ReplaceBody (h\<lparr>links := page_links nextDoc, scripts := page_scripts nextDoc\<rparr>)"

definition runScripts :: "host \<Rightarrow> host" where
  \<comment> \<open>Modelled from the spec: \<open>runScripts\<close> of src/lib/dom.ts. "every script element in
      the new body is then re-executed".\<close>
  "runScripts h = h\<lparr>trace := trace h @ map ExecScript (scripts h)\<rparr>"

definition transition_start :: "(host \<Rightarrow> host) \<Rightarrow> host \<Rightarrow> host" where
  \<comment> \<open>\<open>document.createDocumentTransition().start(callback)\<close>, a capability of the host:
      the callback is run once, inside the transition.\<close>
  "transition_start callback h = callback (emit TransitionStart h)"

subsection \<open>The class \<open>Router\<close>\<close>

definition defaultOpts :: options where
  "defaultOpts = \<lparr>opt_log = False, opt_prefetch = True, opt_pageTransitions = False\<rparr>"

definition merge_opts :: "options \<Rightarrow> FlamethrowerOptions \<Rightarrow> options" where
  \<comment> \<open>\<open>{ ...defaultOpts, ...opts }\<close>: a property that \<open>opts\<close> has overrides the default,
      also when its value is \<open>undefined\<close>.\<close>
  "merge_opts d o1 =
     \<lparr>opt_log = (case log_opt o1 of None \<Rightarrow> opt_log d | Some v \<Rightarrow> truthy v),
      opt_prefetch = (case prefetch_opt o1 of None \<Rightarrow> opt_prefetch d | Some v \<Rightarrow> truthy v),
      opt_pageTransitions =
        (case pageTransitions_opt o1 of
           None \<Rightarrow> opt_pageTransitions d | Some v \<Rightarrow> truthy v)\<rparr>"

definition log :: "string list \<Rightarrow> host \<Rightarrow> host" where
  "log args h = emit (ConsoleLog args) h"

definition allLinks :: "router \<Rightarrow> host \<Rightarrow> string list" where
  "allLinks r h =
     filter
       (\<lambda>v. str_includes v (origin h)
           \<and> \<not> str_includes v ''#''
           \<and> v \<noteq> (if href h \<noteq> [] then href h else href h @ ''/'')
           \<and> \<not> has (prefetched r) v)
       (links h)"

fun forEach_link :: "string list \<Rightarrow> router \<times> host \<Rightarrow> router \<times> host" where
  "forEach_link [] s = s"
| "forEach_link (url # urls) (r, h) =
     forEach_link urls
       (r\<lparr>prefetched := add (prefetched r) url\<rparr>,
        emit (AppendChild (PrefetchLink url)) (h\<lparr>head := head h @ [PrefetchLink url]\<rparr>))"

definition prefetch :: "router \<times> host \<Rightarrow> router \<times> host" where
  "prefetch s =
     (case s of (r, h) \<Rightarrow>
        if opt_prefetch (opts r) then forEach_link (allLinks r h) (r, h) else (r, h))"

text \<open>The handlers that \<open>prefetch\<close> leaves on each link element; the browser calls one of
  them later.\<close>

definition linkEl_onload :: "string \<Rightarrow> host \<Rightarrow> host" where
  "linkEl_onload url h = log [cloud_prefetched, url] h"

definition linkEl_onerror :: "string \<Rightarrow> error \<Rightarrow> host \<Rightarrow> host" where
  "linkEl_onerror url err h =
     log [hurt_cant_prefetch, url, (case err of Error m \<Rightarrow> m | ReferenceError m \<Rightarrow> m)] h"

text \<open>
  The constructor either returns the new router or throws; in both cases the host keeps
  what was done to it. It throws where it reads a global that the host does not declare:
  \<open>window\<close> in \<open>window?.history\<close>, \<open>document\<close> in \<open>document.addEventListener\<close>, and
  \<open>document\<close> again in \<open>document.links\<close>, the first thing the final \<open>this.prefetch()\<close>
  reads when the prefetch option is on. (\<open>prefetch\<close> itself is modelled for a host with a
  document, as the cycle is, whose helpers work on the document.)
\<close>

definition constructor :: "FlamethrowerOptions \<Rightarrow> host \<Rightarrow> (error + router) \<times> host" where
  "constructor o1 h =
     (let r = \<lparr>enabled = True, prefetched = [], opts = merge_opts defaultOpts o1\<rparr>
      in if \<not> has_window h then (Inl (ReferenceError ''window is not defined''), h)
         else if has_history h \<and> \<not> has_document h
         then (Inl (ReferenceError ''document is not defined''), h)
         else
           let h1 = (if has_history h
                     then emit (AddEventListener ''window'' ''popstate'')
                            (emit (AddEventListener ''document'' ''click'') h)
                     else emit (ConsoleWarn
                            ''flamethrower router not supported in this browser or environment'') h)
           in if opt_prefetch (opts r) \<and> \<not> has_document h1
              then (Inl (ReferenceError ''document is not defined''), h1)
              else (case prefetch (r, h1) of (r', h') \<Rightarrow> (Inr r', h')))"

text \<open>The body of the \<open>try\<close> block: the error it throws, if any, and the state it leaves.\<close>

definition merge_and_settle ::
  "RouteChangeData \<Rightarrow> page \<Rightarrow> router \<times> host \<Rightarrow> router \<times> host" where
  "merge_and_settle d nextDoc s =
     (case s of (r, h) \<Rightarrow>
        let h1 = mergeHead nextDoc h;
            h2 = (if opt_pageTransitions (opts r) \<and> can_transition h1
                  then transition_start (\<lambda>h'. runScripts (replaceBody nextDoc h')) h1
                  else runScripts (replaceBody nextDoc h1));
            h3 = scrollToTop (rc_type d) h2;
            h4 = emit (DispatchEvent ''router:end'' None) h3;
            (r', h5) = prefetch (r, h4)
        in (r', if opt_log (opts r') then emit (ConsoleTimeEnd stopwatch) h5 else h5))"

definition fetch_and_merge ::
  "RouteChangeData \<Rightarrow> fetch_outcome \<Rightarrow> router \<times> host \<Rightarrow> (error + unit) \<times> (router \<times> host)"
  where
  "fetch_and_merge d net s =
     (case s of (r, h) \<Rightarrow>
        let h1 = (if opt_log (opts r) then emit (ConsoleTime stopwatch) h else h);
            h2 = emit (DispatchEvent ''router:fetch'' None) h1;
            h3 = addToPushState (rc_next d) h2;
            h4 = emit (Fetch (rc_next d)) h3
        in case net of
             NetworkFailure err \<Rightarrow> (Inl err, (r, h4))
           | Response res \<Rightarrow>
               (case text_result res of
                  Inl err \<Rightarrow> (Inl err, (r, emit ReadText h4))
                | Inr html \<Rightarrow>
                    (case formatNextDocument html (emit ReadText h4) of
                       (Inl err, h5) \<Rightarrow> (Inl err, (r, h5))
                     | (Inr nextDoc, h5) \<Rightarrow> (Inr (), merge_and_settle d nextDoc (r, h5)))))"

definition eligible :: "RouteChangeData \<Rightarrow> bool" where
  \<comment> \<open>\<open>['popstate', 'link', 'go'].includes(type) && next !== prev\<close>\<close>
  "eligible d = (rc_type d \<in> set [''popstate'', ''link'', ''go''] \<and> rc_next d \<noteq> rc_prev d)"

definition try_block ::
  "RouteChangeData \<Rightarrow> fetch_outcome \<Rightarrow> router \<times> host \<Rightarrow> (error + unit) \<times> (router \<times> host)"
  where
  "try_block d net s =
     (case s of (r, h) \<Rightarrow>
        let h0 = log [zap, rc_type d] h
        in if eligible d
           then fetch_and_merge d net (r, h0)
           else (Inr (), (r, h0)))"

definition catch_block :: "error \<Rightarrow> router \<times> host \<Rightarrow> router \<times> host" where
  "catch_block err s =
     (case s of (r, h) \<Rightarrow>
        let h1 = emit (DispatchEvent ''router:error'' (Some err)) h;
            h2 = (if opt_log (opts r) then emit (ConsoleTimeEnd stopwatch) h1 else h1)
        in (r, emit (ConsoleError boom_router_fetch_failed err) h2))"

definition reconstructDOM ::
  "RouteChangeData \<Rightarrow> fetch_outcome \<Rightarrow> router \<times> host \<Rightarrow> settled \<times> (router \<times> host)" where
  "reconstructDOM d net s =
     (case s of (r, h) \<Rightarrow>
        if \<not> enabled r then (Fulfilled Undefined, (r, log [''router disabled''] h))
        else (case try_block d net (r, h) of
                (Inr u, s') \<Rightarrow> (Fulfilled Undefined, s')
              | (Inl err, s') \<Rightarrow> (Fulfilled JSFalse, catch_block err s')))"

text \<open>\<open>go\<close>: the \<open>URL\<close> constructor is called outside any \<open>try\<close>, so its error is thrown
  to the caller.\<close>

definition go ::
  "string \<Rightarrow> fetch_outcome \<Rightarrow> router \<times> host \<Rightarrow> error + settled \<times> (router \<times> host)" where
  "go path net s =
     (case s of (r, h) \<Rightarrow>
        let prev = href h
        in case new_URL h path (origin h) of
             Inl err \<Rightarrow> Inl err
           | Inr nxt \<Rightarrow>
               Inr (reconstructDOM \<lparr>rc_type = ''go'', rc_next = nxt, rc_prev = prev\<rparr> net s))"

subsection \<open>Runs of the router\<close>

text \<open>
  What can happen to a router after its construction: a navigation intent runs a cycle
  (\<open>onClick\<close>, \<open>onPop\<close> and \<open>go\<close> all end in \<open>reconstructDOM\<close>), the host writes the
  public \<open>enabled\<close> flag, a prefetch link reports that it loaded or failed, or the browser
  and the page change the document on their own (history traversal, scripts). A change
  of origin is a full reload, which ends the router's life, so the origin stays.
\<close>

inductive step :: "router \<times> host \<Rightarrow> router \<times> host \<Rightarrow> bool" where
  cycle: "step s (snd (reconstructDOM d net s))"
| set_enabled: "step (r, h) (r\<lparr>enabled := b\<rparr>, h)"
| link_loaded: "step (r, h) (r, linkEl_onload url h)"
| link_failed: "step (r, h) (r, linkEl_onerror url err h)"
| host_change: "origin h' = origin h \<Longrightarrow> step (r, h) (r, h')"

inductive reachable :: "router \<times> host \<Rightarrow> bool" where
  init: "constructor o1 h = (Inr r, h') \<Longrightarrow> reachable (r, h')"
| after: "reachable s \<Longrightarrow> step s s' \<Longrightarrow> reachable s'"

subsection \<open>Reading a trace\<close>

text \<open>The effects that a call added to the trace.\<close>

definition added :: "host \<Rightarrow> host \<Rightarrow> effect list" where
  "added h h' = drop (length (trace h)) (trace h')"

fun request_of :: "effect \<Rightarrow> string list" where
  "request_of (AppendChild (PrefetchLink u)) = [u]"
| "request_of _ = []"

text \<open>The URLs for which a prefetch link was appended to the head, in order.\<close>

definition prefetch_requests :: "effect list \<Rightarrow> string list" where
  "prefetch_requests t = concat (map request_of t)"

fun is_console :: "effect \<Rightarrow> bool" where
  "is_console (ConsoleLog _) = True"
| "is_console (ConsoleWarn _) = True"
| "is_console (ConsoleError _ _) = True"
| "is_console (ConsoleTime _) = True"
| "is_console (ConsoleTimeEnd _) = True"
| "is_console _ = False"

fun is_listener :: "effect \<Rightarrow> bool" where
  "is_listener (AddEventListener _ _) = True"
| "is_listener _ = False"

fun is_event :: "string \<Rightarrow> effect \<Rightarrow> bool" where
  "is_event name (DispatchEvent n _) = (n = name)"
| "is_event name _ = False"

fun is_fetch_or_push :: "effect \<Rightarrow> bool" where
  "is_fetch_or_push (Fetch _) = True"
| "is_fetch_or_push (PushState _) = True"
| "is_fetch_or_push _ = False"

fun is_body_step :: "effect \<Rightarrow> bool" where
  "is_body_step ReplaceBody = True"
| "is_body_step (ExecScript _) = True"
| "is_body_step _ = False"

text \<open>The host at the moment an eligible cycle has issued its fetch.\<close>

definition at_fetch :: "RouteChangeData \<Rightarrow> router \<Rightarrow> host \<Rightarrow> host" where
  "at_fetch d r h =
     h\<lparr>history_stack := history_stack h @ [rc_next d], href := rc_next d,
       trace := trace h @ [ConsoleLog [zap, rc_type d]]
                @ (if opt_log (opts r) then [ConsoleTime stopwatch] else [])
                @ [DispatchEvent ''router:fetch'' None, PushState (rc_next d),
                   Fetch (rc_next d)]\<rparr>"

text \<open>The fetch of the destination fails with \<open>err\<close>: \<open>fetch\<close> rejects, or the body of
  the response cannot be read.\<close>

definition fetch_fails :: "fetch_outcome \<Rightarrow> error \<Rightarrow> bool" where
  "fetch_fails net err =
     (case net of NetworkFailure e \<Rightarrow> e = err | Response res \<Rightarrow> text_result res = Inl err)"

subsection \<open>The filter of the prefetch pass, as the specification words it\<close>





subsection \<open>A site to run the router on\<close>

definition about_page :: page where
  "about_page =
     \<lparr>page_head = [Tag ''<title>About</title>''],
      page_links = [''https://a.example/'', ''https://a.example/team''],
      page_scripts = [''app.js'', ''stats.js'']\<rparr>"

definition home :: host where
  "home =
     \<lparr>has_window = True, has_document = True, has_history = True, can_transition = False,
      origin = ''https://a.example'', href = ''https://a.example/'',
      links = [''https://a.example/about'', ''https://a.example/about#team'',
               ''https://a.example.evil.test/x'', ''https://a.example/'',
               ''https://b.example/'', ''https://a.example/about''],
      head = [Tag ''<title>Home</title>''], scripts = [],
      history_stack = [''https://a.example/''], scroll = 7,
      parse = (\<lambda>html. Inr about_page),
      new_URL = (\<lambda>path base. Inr (base @ path)),
      trace = []\<rparr>"

definition home_without_history :: host where
  "home_without_history = home\<lparr>has_history := False\<rparr>"

text \<open>A host with no \<open>window\<close> and no \<open>document\<close>, as outside a browser.\<close>

definition no_browser :: host where
  "no_browser = home\<lparr>has_window := False, has_document := False, has_history := False\<rparr>"

text \<open>A host that declares a bare \<open>window\<close>, without history, and no \<open>document\<close>.\<close>

definition window_only :: host where
  "window_only = home\<lparr>has_document := False, has_history := False\<rparr>"

definition fresh_router :: router where
  "fresh_router = \<lparr>enabled = True, prefetched = [], opts = defaultOpts\<rparr>"

definition no_options :: FlamethrowerOptions where
  "no_options = \<lparr>log_opt = None, prefetch_opt = None, pageTransitions_opt = None\<rparr>"

definition prefetch_off :: FlamethrowerOptions where
  "prefetch_off = \<lparr>log_opt = None, prefetch_opt = Some (JSBool False), pageTransitions_opt = None\<rparr>"

definition click_about :: RouteChangeData where
  "click_about =
     \<lparr>rc_type = ''link'', rc_next = ''https://a.example/about'',
      rc_prev = ''https://a.example/''\<rparr>"

definition click_home :: RouteChangeData where
  "click_home =
     \<lparr>rc_type = ''link'', rc_next = ''https://a.example/'',
      rc_prev = ''https://a.example/''\<rparr>"

definition ok_200 :: response where
  "ok_200 = \<lparr>status = 200, text_result = Inr ''<title>About</title><body><h1>About</h1></body>''\<rparr>"

definition error_500 :: response where
  "error_500 = \<lparr>status = 500, text_result = Inr ''<h1>Internal Server Error</h1>''\<rparr>"

definition offline :: fetch_outcome where
  "offline = NetworkFailure (Error ''Failed to fetch'')"

text \<open>The router that the constructor returns on the home page: with no options, on the
  home page without history, and with the prefetch option off. Then the state after a
  click on the link to the about page has been served.\<close>

definition at_home :: "router \<times> host" where
  "at_home =
     (fresh_router\<lparr>prefetched := [''https://a.example/about'', ''https://a.example.evil.test/x'']\<rparr>,
      home\<lparr>head := [Tag ''<title>Home</title>'', PrefetchLink ''https://a.example/about'',
                   PrefetchLink ''https://a.example.evil.test/x'',
                   PrefetchLink ''https://a.example/about''],
           trace := [AddEventListener ''document'' ''click'',
                     AddEventListener ''window'' ''popstate'',
                     AppendChild (PrefetchLink ''https://a.example/about''),
                     AppendChild (PrefetchLink ''https://a.example.evil.test/x''),
                     AppendChild (PrefetchLink ''https://a.example/about'')]\<rparr>)"

definition at_home_without_history :: "router \<times> host" where
  "at_home_without_history =
     (fresh_router\<lparr>prefetched := [''https://a.example/about'', ''https://a.example.evil.test/x'']\<rparr>,
      home_without_history
        \<lparr>head := [Tag ''<title>Home</title>'', PrefetchLink ''https://a.example/about'',
                   PrefetchLink ''https://a.example.evil.test/x'',
                   PrefetchLink ''https://a.example/about''],
         trace := [ConsoleWarn ''flamethrower router not supported in this browser or environment'',
                   AppendChild (PrefetchLink ''https://a.example/about''),
                   AppendChild (PrefetchLink ''https://a.example.evil.test/x''),
                   AppendChild (PrefetchLink ''https://a.example/about'')]\<rparr>)"

definition at_home_prefetch_off :: "router \<times> host" where
  "at_home_prefetch_off =
     (fresh_router\<lparr>opts := defaultOpts\<lparr>opt_prefetch := False\<rparr>\<rparr>,
      home\<lparr>trace := [AddEventListener ''document'' ''click'',
                      AddEventListener ''window'' ''popstate'']\<rparr>)"

text \<open>The home page after the first prefetch pass, and the same document, links unchanged,
  once the location has moved to the about page.\<close>

definition home_prefetched :: "router \<times> host" where
  "home_prefetched = prefetch (fresh_router, home)"

definition home_moved :: host where
  "home_moved = (snd home_prefetched)\<lparr>href := ''https://a.example/about''\<rparr>"

definition at_about :: "router \<times> host" where
  "at_about = snd (reconstructDOM click_about (Response ok_200) at_home)"

section \<open>Properties\<close>

subsection \<open>The set and the prefetch pass\<close>

lemma emit_simps:
  "trace (emit e h) = trace h @ [e]"
  "href (emit e h) = href h"
  "origin (emit e h) = origin h"
  "links (emit e h) = links h"
  "head (emit e h) = head h"
  "scripts (emit e h) = scripts h"
  "history_stack (emit e h) = history_stack h"
  "parse (emit e h) = parse h"
  "can_transition (emit e h) = can_transition h"
  "has_document (emit e h) = has_document h"
  by (simp_all add: emit_def)

lemma str_includes_char: "str_includes v [c] \<longleftrightarrow> c \<in> set v"
  by (induction v) auto

lemma add_set: "set (add xs v) = insert v (set xs)"
  by (auto simp: add_def has_def)

lemma add_distinct: "distinct xs \<Longrightarrow> distinct (add xs v)"
  by (simp add: add_def has_def)

lemma add_prefix: "prefix xs (add xs v)"
  by (simp add: add_def)

lemma count_add:
  "count_list (add xs v) u = count_list xs u + (if u = v \<and> v \<notin> set xs then 1 else 0)"
  by (simp add: add_def has_def)

lemma forEach_link_router:
  "enabled (fst (forEach_link us (r, h))) = enabled r"
  "opts (fst (forEach_link us (r, h))) = opts r"
  "set (prefetched (fst (forEach_link us (r, h)))) = set (prefetched r) \<union> set us"
  "prefix (prefetched r) (prefetched (fst (forEach_link us (r, h))))"
  "distinct (prefetched r) \<Longrightarrow> distinct (prefetched (fst (forEach_link us (r, h))))"
proof (induction us arbitrary: r h)
  case Nil
  {
    case 1 show ?case by simp
  next
    case 2 show ?case by simp
  next
    case 3 show ?case by simp
  next
    case 4 show ?case by simp
  next
    case 5 then show ?case by simp
  }
next
  case (Cons u us)
  {
    case 1 show ?case by (simp add: Cons.IH(1))
  next
    case 2 show ?case by (simp add: Cons.IH(2))
  next
    case 3 show ?case by (simp add: Cons.IH(3) add_set)
  next
    case 4
    have "prefix (prefetched r) (add (prefetched r) u)" by (rule add_prefix)
    also have "prefix \<dots> (prefetched (fst (forEach_link (u # us) (r, h))))"
      using Cons.IH(4) [of "r\<lparr>prefetched := add (prefetched r) u\<rparr>"] by simp
    finally show ?case .
  next
    case 5 then show ?case by (simp add: Cons.IH(5) add_distinct)
  }
qed

lemma forEach_link_host:
  "trace (snd (forEach_link us (r, h))) = trace h @ map (\<lambda>u. AppendChild (PrefetchLink u)) us"
  "head (snd (forEach_link us (r, h))) = head h @ map PrefetchLink us"
  "href (snd (forEach_link us (r, h))) = href h"
  "origin (snd (forEach_link us (r, h))) = origin h"
  "links (snd (forEach_link us (r, h))) = links h"
  "history_stack (snd (forEach_link us (r, h))) = history_stack h"
  by (induction us arbitrary: r h) (simp_all add: emit_def)

lemma forEach_link_count:
  "count_list (prefetched (fst (forEach_link us (r, h)))) u
     = count_list (prefetched r) u + (if u \<in> set us \<and> u \<notin> set (prefetched r) then 1 else 0)"
proof (induction us arbitrary: r h)
  case Nil
  show ?case by simp
next
  case (Cons a us)
  show ?case
    by (simp add: Cons.IH count_add add_set) (auto simp: count_list_0_iff)
qed

lemma prefetch_router:
  "enabled (fst (prefetch (r, h))) = enabled r"
  "opts (fst (prefetch (r, h))) = opts r"
  "prefix (prefetched r) (prefetched (fst (prefetch (r, h))))"
  "distinct (prefetched r) \<Longrightarrow> distinct (prefetched (fst (prefetch (r, h))))"
  "set (prefetched (fst (prefetch (r, h))))
     = set (prefetched r) \<union> (if opt_prefetch (opts r) then set (allLinks r h) else {})"
  by (simp_all add: prefetch_def forEach_link_router)

lemma prefetch_host:
  "trace (snd (prefetch (r, h)))
     = trace h @ (if opt_prefetch (opts r)
                  then map (\<lambda>u. AppendChild (PrefetchLink u)) (allLinks r h) else [])"
  "href (snd (prefetch (r, h))) = href h"
  "origin (snd (prefetch (r, h))) = origin h"
  "links (snd (prefetch (r, h))) = links h"
  "history_stack (snd (prefetch (r, h))) = history_stack h"
  by (simp_all add: prefetch_def forEach_link_host)

lemma prefetch_new:
  assumes "u \<in> set (prefetched (fst (prefetch (r, h))))" and "u \<notin> set (prefetched r)"
  shows "opt_prefetch (opts r) \<and> str_includes u (origin h) \<and> \<not> str_includes u ''#''
         \<and> (href h \<noteq> [] \<longrightarrow> u \<noteq> href h)"
  using assms by (auto simp: prefetch_router allLinks_def split: if_splits)

lemma prefetch_requests_append:
  "prefetch_requests (xs @ ys) = prefetch_requests xs @ prefetch_requests ys"
  by (simp add: prefetch_requests_def)


lemma allLinks_iff:
  "v \<in> set (allLinks r h) \<longleftrightarrow>
     v \<in> set (links h) \<and> str_includes v (origin h) \<and> CHR ''#'' \<notin> set v
     \<and> v \<noteq> (if href h \<noteq> [] then href h else ''/'') \<and> v \<notin> set (prefetched r)"
  by (auto simp: allLinks_def has_def str_includes_char)

lemma allLinks_after:
  assumes "links h2 = links h" "href h2 = href h" "origin h2 = origin h"
    and "set (prefetched r1) = set (prefetched r) \<union> set (allLinks r h)"
  shows "allLinks r1 h2 = []"
  using assms by (auto simp: allLinks_def has_def filter_empty_conv)

lemma added_append: "trace h' = trace h @ t \<Longrightarrow> added h h' = t"
  by (simp add: added_def)

subsection \<open>The cycle\<close>

lemma merge_and_settle_trace:
  "\<exists>us. (opt_prefetch (opts r) \<or> us = [])
      \<and> trace (snd (merge_and_settle d p (r, h)))
      = trace h @ [MergeHead]
        @ (if opt_pageTransitions (opts r) \<and> can_transition h then [TransitionStart] else [])
        @ [ReplaceBody] @ map ExecScript (page_scripts p)
        @ (if rc_type d \<in> set [''link'', ''go''] then [ScrollToTop (rc_type d)] else [])
        @ [DispatchEvent ''router:end'' None]
        @ map (\<lambda>u. AppendChild (PrefetchLink u)) us
        @ (if opt_log (opts r) then [ConsoleTimeEnd stopwatch] else [])"
  by (simp add: merge_and_settle_def Let_def case_prod_beta prefetch_host prefetch_router
      emit_simps mergeHead_def replaceBody_def runScripts_def transition_start_def
      scrollToTop_def emit_def) blast

lemma merge_and_settle_state:
  "history_stack (snd (merge_and_settle d p (r, h))) = history_stack h"
  "href (snd (merge_and_settle d p (r, h))) = href h"
  "origin (snd (merge_and_settle d p (r, h))) = origin h"
  "enabled (fst (merge_and_settle d p (r, h))) = enabled r"
  "opts (fst (merge_and_settle d p (r, h))) = opts r"
  by (simp_all add: merge_and_settle_def Let_def case_prod_beta prefetch_host prefetch_router
      emit_simps mergeHead_def replaceBody_def runScripts_def transition_start_def
      scrollToTop_def emit_def)

lemma merge_and_settle_router:
  "\<exists>h4. fst (merge_and_settle d p (r, h)) = fst (prefetch (r, h4))
        \<and> origin h4 = origin h \<and> href h4 = href h"
proof -
  let ?h1 = "mergeHead p h"
  let ?h2 = "if opt_pageTransitions (opts r) \<and> can_transition ?h1
             then transition_start (\<lambda>h'. runScripts (replaceBody p h')) ?h1
             else runScripts (replaceBody p ?h1)"
  let ?h4 = "emit (DispatchEvent ''router:end'' None) (scrollToTop (rc_type d) ?h2)"
  have "fst (merge_and_settle d p (r, h)) = fst (prefetch (r, ?h4))"
    by (simp add: merge_and_settle_def Let_def case_prod_beta)
  moreover have "origin ?h4 = origin h" and "href ?h4 = href h"
    by (simp_all add: emit_def scrollToTop_def transition_start_def runScripts_def
        replaceBody_def mergeHead_def)
  ultimately show ?thesis by blast
qed

lemma started_cycle:
  assumes "enabled r" and "eligible d"
  shows "reconstructDOM d net (r, h)
         = (case fetch_and_merge d net (r, log [zap, rc_type d] h) of
              (Inr u, s') \<Rightarrow> (Fulfilled Undefined, s')
            | (Inl err, s') \<Rightarrow> (Fulfilled JSFalse, catch_block err s'))"
  using assms by (simp add: reconstructDOM_def try_block_def Let_def)

lemma at_fetch_simps:
  "trace (at_fetch d r h) = trace h @ [ConsoleLog [zap, rc_type d]]
                @ (if opt_log (opts r) then [ConsoleTime stopwatch] else [])
                @ [DispatchEvent ''router:fetch'' None, PushState (rc_next d),
                   Fetch (rc_next d)]"
  "history_stack (at_fetch d r h) = history_stack h @ [rc_next d]"
  "href (at_fetch d r h) = rc_next d"
  "origin (at_fetch d r h) = origin h"
  "can_transition (at_fetch d r h) = can_transition h"
  by (simp_all add: at_fetch_def)

lemma fetch_and_merge_cases:
  "fetch_and_merge d net (r, log [zap, rc_type d] h)
   = (case net of
        NetworkFailure err \<Rightarrow> (Inl err, (r, at_fetch d r h))
      | Response res \<Rightarrow>
         (case text_result res of
            Inl err \<Rightarrow> (Inl err, (r, emit ReadText (at_fetch d r h)))
          | Inr html \<Rightarrow>
             (case parse h html of
                Inl err \<Rightarrow> (Inl err, (r, emit FormatNextDocument (emit ReadText (at_fetch d r h))))
              | Inr p \<Rightarrow>
                 (Inr (), merge_and_settle d p
                    (r, emit FormatNextDocument (emit ReadText (at_fetch d r h)))))))"
  by (simp add: fetch_and_merge_def at_fetch_def Let_def log_def emit_def addToPushState_def
      formatNextDocument_def split: fetch_outcome.splits sum.splits)

lemma cycle_router:
  "fst (snd (reconstructDOM d net (r, h))) = r
   \<or> (\<exists>h4. fst (snd (reconstructDOM d net (r, h))) = fst (prefetch (r, h4))
          \<and> origin h4 = origin h \<and> href h4 = href (snd (snd (reconstructDOM d net (r, h)))))"
proof (cases "enabled r \<and> eligible d")
  case False
  then show ?thesis
    by (auto simp: reconstructDOM_def try_block_def Let_def)
next
  case True
  then have en: "enabled r" and el: "eligible d" by simp_all
  show ?thesis
  proof (cases net)
    case (NetworkFailure err)
    then show ?thesis
      by (simp add: started_cycle [OF en el] fetch_and_merge_cases catch_block_def Let_def)
  next
    case (Response res)
    show ?thesis
    proof (cases "text_result res")
      case (Inl err)
      then show ?thesis
        by (simp add: started_cycle [OF en el] fetch_and_merge_cases Response catch_block_def
            Let_def)
    next
      case (Inr html)
      note html = this
      show ?thesis
      proof (cases "parse h html")
        case (Inl err)
        then show ?thesis
          by (simp add: started_cycle [OF en el] fetch_and_merge_cases Response html
              catch_block_def Let_def)
      next
        case (Inr p)
        let ?h = "emit FormatNextDocument (emit ReadText (at_fetch d r h))"
        obtain h4 where "fst (merge_and_settle d p (r, ?h)) = fst (prefetch (r, h4))"
          and "origin h4 = origin ?h" and "href h4 = href ?h"
          using merge_and_settle_router by blast
        then show ?thesis
          by (simp add: started_cycle [OF en el] fetch_and_merge_cases Response html Inr
              merge_and_settle_state emit_simps at_fetch_simps) blast
      qed
    qed
  qed
qed

lemma cycle_origin: "origin (snd (snd (reconstructDOM d net (r, h)))) = origin h"
  by (simp add: reconstructDOM_def try_block_def fetch_and_merge_def catch_block_def Let_def
      log_def addToPushState_def formatNextDocument_def emit_simps merge_and_settle_state
      split: fetch_outcome.splits sum.splits prod.splits)

lemma cycle_trace:
  "\<exists>t. trace (snd (snd (reconstructDOM d net (r, h)))) = trace h @ t
       \<and> (opt_prefetch (opts r) \<or> prefetch_requests t = [])"
proof (cases "enabled r \<and> eligible d")
  case False
  then show ?thesis
    by (auto simp: reconstructDOM_def try_block_def Let_def log_def emit_simps
        prefetch_requests_def)
next
  case True
  then have en: "enabled r" and el: "eligible d" by simp_all
  show ?thesis
  proof (cases net)
    case (NetworkFailure err)
    then show ?thesis
      by (simp add: started_cycle [OF en el] fetch_and_merge_cases catch_block_def Let_def
          emit_simps at_fetch_simps prefetch_requests_def)
  next
    case (Response res)
    show ?thesis
    proof (cases "text_result res")
      case (Inl err)
      then show ?thesis
        by (simp add: started_cycle [OF en el] fetch_and_merge_cases Response catch_block_def
            Let_def emit_simps at_fetch_simps prefetch_requests_def)
    next
      case (Inr html)
      note html = this
      show ?thesis
      proof (cases "parse h html")
        case (Inl err)
        then show ?thesis
          by (simp add: started_cycle [OF en el] fetch_and_merge_cases Response html
              catch_block_def Let_def emit_simps at_fetch_simps prefetch_requests_def)
      next
        case (Inr p)
        let ?h = "emit FormatNextDocument (emit ReadText (at_fetch d r h))"
        obtain us where "opt_prefetch (opts r) \<or> us = []" and
          "trace (snd (merge_and_settle d p (r, ?h)))
           = trace ?h @ [MergeHead]
        @ (if opt_pageTransitions (opts r) \<and> can_transition ?h then [TransitionStart] else [])
        @ [ReplaceBody] @ map ExecScript (page_scripts p)
        @ (if rc_type d \<in> set [''link'', ''go''] then [ScrollToTop (rc_type d)] else [])
        @ [DispatchEvent ''router:end'' None]
        @ map (\<lambda>u. AppendChild (PrefetchLink u)) us
        @ (if opt_log (opts r) then [ConsoleTimeEnd stopwatch] else [])"
          using merge_and_settle_trace by blast
        then show ?thesis
          by (auto simp add: started_cycle [OF en el] fetch_and_merge_cases Response html Inr
              emit_simps at_fetch_simps prefetch_requests_def)
      qed
    qed
  qed
qed

subsection \<open>The construction and the runs\<close>

lemma constructor_shape:
  assumes "constructor o1 h = (Inr r', h')"
  shows "\<exists>h0. (r', h')
           = prefetch (\<lparr>enabled = True, prefetched = [], opts = merge_opts defaultOpts o1\<rparr>, h0)
         \<and> origin h0 = origin h \<and> href h0 = href h \<and> links h0 = links h \<and> head h0 = head h
         \<and> (if has_history h
             then trace h0 = trace h @ [AddEventListener ''document'' ''click'',
                                        AddEventListener ''window'' ''popstate'']
             else trace h0 = trace h @ [ConsoleWarn
                    ''flamethrower router not supported in this browser or environment''])"
proof (cases "has_history h")
  case True
  let ?h0 = "emit (AddEventListener ''window'' ''popstate'')
               (emit (AddEventListener ''document'' ''click'') h)"
  have "(r', h')
          = prefetch (\<lparr>enabled = True, prefetched = [], opts = merge_opts defaultOpts o1\<rparr>, ?h0)"
    using assms True by (simp add: constructor_def Let_def split: if_splits prod.splits)
  then show ?thesis using True by (intro exI [of _ ?h0]) (simp add: emit_simps)
next
  case False
  let ?h0 = "emit (ConsoleWarn
               ''flamethrower router not supported in this browser or environment'') h"
  have "(r', h')
          = prefetch (\<lparr>enabled = True, prefetched = [], opts = merge_opts defaultOpts o1\<rparr>, ?h0)"
    using assms False by (simp add: constructor_def Let_def split: if_splits prod.splits)
  then show ?thesis using False by (intro exI [of _ ?h0]) (simp add: emit_simps)
qed

lemma constructor_returns:
  assumes "has_window h" and "has_document h"
  shows "\<exists>r' h'. constructor o1 h = (Inr r', h')"
  using assms by (simp add: constructor_def Let_def emit_simps split: prod.splits)

lemma constructor_prefetched:
  assumes "constructor o1 h = (Inr r', h')"
  shows "distinct (prefetched r')"
    and "u \<in> set (prefetched r') \<Longrightarrow>
           str_includes u (origin h) \<and> \<not> str_includes u ''#'' \<and> (href h \<noteq> [] \<longrightarrow> u \<noteq> href h)"
    and "origin h' = origin h"
    and "href h' = href h"
proof -
  let ?r0 = "\<lparr>enabled = True, prefetched = [], opts = merge_opts defaultOpts o1\<rparr>"
  obtain h0 where c: "(r', h') = prefetch (?r0, h0)"
    and h0: "origin h0 = origin h" "href h0 = href h"
    using constructor_shape [OF assms] by blast
  have r': "r' = fst (prefetch (?r0, h0))" and h': "h' = snd (prefetch (?r0, h0))"
    using c [symmetric] by simp_all
  show "distinct (prefetched r')"
    by (simp add: r' prefetch_router)
  show "origin h' = origin h" "href h' = href h"
    by (simp_all add: h' prefetch_host h0)
  show "str_includes u (origin h) \<and> \<not> str_includes u ''#'' \<and> (href h \<noteq> [] \<longrightarrow> u \<noteq> href h)"
    if "u \<in> set (prefetched r')"
    using that prefetch_new [of u ?r0 h0] by (simp add: r' h0)
qed

lemma step_grows:
  assumes "step s s'"
  shows "origin (snd s') = origin (snd s)"
    and "prefix (prefetched (fst s)) (prefetched (fst s'))"
    and "distinct (prefetched (fst s)) \<Longrightarrow> distinct (prefetched (fst s'))"
    and "u \<in> set (prefetched (fst s')) \<Longrightarrow> u \<notin> set (prefetched (fst s)) \<Longrightarrow>
           str_includes u (origin (snd s)) \<and> \<not> str_includes u ''#''
           \<and> (href (snd s') \<noteq> [] \<longrightarrow> u \<noteq> href (snd s'))"
  using assms
proof (induction rule: step.induct)
  case (cycle s d net)
  obtain r h where s: "s = (r, h)" by (cases s)
  note shape = cycle_router [of d net r h]
  {
    case 1 show ?case by (simp add: s cycle_origin)
  next
    case 2 show ?case using shape by (auto simp: s prefetch_router)
  next
    case 3 then show ?case using shape by (auto simp: s prefetch_router)
  next
    case 4
    then have u: "u \<in> set (prefetched (fst (snd (reconstructDOM d net (r, h)))))"
      "u \<notin> set (prefetched r)" by (simp_all add: s)
    then have "fst (snd (reconstructDOM d net (r, h))) \<noteq> r" by auto
    then obtain h4 where h4: "fst (snd (reconstructDOM d net (r, h))) = fst (prefetch (r, h4))"
      "origin h4 = origin h" "href h4 = href (snd (snd (reconstructDOM d net (r, h))))"
      using shape by blast
    show ?case using prefetch_new [of u r h4] u by (simp add: s h4)
  }
next
  case (set_enabled r h b)
  {
    case 1 show ?case by simp
  next
    case 2 show ?case by simp
  next
    case 3 then show ?case by simp
  next
    case 4 then show ?case by simp
  }
next
  case (link_loaded r h url)
  {
    case 1 show ?case by (simp add: linkEl_onload_def log_def emit_simps)
  next
    case 2 show ?case by simp
  next
    case 3 then show ?case by simp
  next
    case 4 then show ?case by simp
  }
next
  case (link_failed r h url err)
  {
    case 1 show ?case by (simp add: linkEl_onerror_def log_def emit_simps)
  next
    case 2 show ?case by simp
  next
    case 3 then show ?case by simp
  next
    case 4 then show ?case by simp
  }
next
  case (host_change h' h r)
  {
    case 1 show ?case using host_change by simp
  next
    case 2 show ?case by simp
  next
    case 3 then show ?case by simp
  next
    case 4 then show ?case by simp
  }
qed

lemma reachable_invariant:
  assumes "reachable s"
  shows "distinct (prefetched (fst s))
         \<and> (\<forall>u \<in> set (prefetched (fst s)).
               str_includes u (origin (snd s)) \<and> \<not> str_includes u ''#'')"
  using assms
proof (induction rule: reachable.induct)
  case (init o1 h r h')
  show ?case using constructor_prefetched(1-3) [OF init] by simp
next
  case (after s s')
  show ?case
    using after.IH step_grows [OF after.hyps(2)] by metis
qed

subsection \<open>The example site, evaluated\<close>

lemma fresh_router_simps:
  "enabled fresh_router" "prefetched fresh_router = []" "opts fresh_router = defaultOpts"
  "\<not> opt_log defaultOpts" "opt_prefetch defaultOpts" "\<not> opt_pageTransitions defaultOpts"
  by (simp_all add: fresh_router_def defaultOpts_def)

lemma home_simps:
  "has_window home" "has_document home" "has_history home" "\<not> can_transition home"
  "origin home = ''https://a.example''" "href home = ''https://a.example/''"
  "links home = [''https://a.example/about'', ''https://a.example/about#team'',
               ''https://a.example.evil.test/x'', ''https://a.example/'',
               ''https://b.example/'', ''https://a.example/about'']"
  "head home = [Tag ''<title>Home</title>'']" "scripts home = []"
  "history_stack home = [''https://a.example/'']" "trace home = []"
  "parse home = (\<lambda>html. Inr about_page)"
  by (simp_all add: home_def)

lemma click_simps:
  "rc_type click_about = ''link''" "rc_next click_about = ''https://a.example/about''"
  "rc_prev click_about = ''https://a.example/''" "eligible click_about"
  "rc_type click_home = ''link''" "rc_next click_home = ''https://a.example/''"
  "rc_prev click_home = ''https://a.example/''" "\<not> eligible click_home"
  by (simp_all add: click_about_def click_home_def eligible_def)

lemma at_home_eval:
  "at_home =
     (fresh_router\<lparr>prefetched := [''https://a.example/about'', ''https://a.example.evil.test/x'']\<rparr>,
      home\<lparr>head := [Tag ''<title>Home</title>'', PrefetchLink ''https://a.example/about'',
                   PrefetchLink ''https://a.example.evil.test/x'',
                   PrefetchLink ''https://a.example/about''],
           trace := [AddEventListener ''document'' ''click'',
                     AddEventListener ''window'' ''popstate'',
                     AppendChild (PrefetchLink ''https://a.example/about''),
                     AppendChild (PrefetchLink ''https://a.example.evil.test/x''),
                     AppendChild (PrefetchLink ''https://a.example/about'')]\<rparr>)"
  by (simp add: at_home_def)

lemma at_home_constructed:
  "constructor no_options home = (Inr (fst at_home), snd at_home)"
  by (simp add: at_home_def constructor_def prefetch_def allLinks_def has_def add_def home_def
      no_options_def merge_opts_def defaultOpts_def emit_def fresh_router_def Let_def)

lemma at_home_without_history_constructed:
  "constructor no_options home_without_history
     = (Inr (fst at_home_without_history), snd at_home_without_history)"
  by (simp add: at_home_without_history_def home_without_history_def constructor_def
      prefetch_def allLinks_def has_def add_def home_def
      no_options_def merge_opts_def defaultOpts_def emit_def fresh_router_def Let_def)

lemma at_home_prefetch_off_constructed:
  "constructor prefetch_off home = (Inr (fst at_home_prefetch_off), snd at_home_prefetch_off)"
  by (simp add: at_home_prefetch_off_def constructor_def prefetch_def home_def
      prefetch_off_def merge_opts_def defaultOpts_def emit_def fresh_router_def Let_def)

lemma no_browser_throws:
  "constructor no_options no_browser
     = (Inl (ReferenceError ''window is not defined''), no_browser)"
  by (simp add: constructor_def no_browser_def Let_def)

lemma window_only_throws:
  "constructor no_options window_only
     = (Inl (ReferenceError ''document is not defined''),
        window_only\<lparr>trace := [ConsoleWarn
          ''flamethrower router not supported in this browser or environment'']\<rparr>)"
  by (simp add: constructor_def window_only_def home_def no_options_def merge_opts_def
      defaultOpts_def emit_def Let_def)

lemma home_moved_eval:
  "fst home_prefetched
     = fresh_router\<lparr>prefetched := [''https://a.example/about'', ''https://a.example.evil.test/x'']\<rparr>"
  "links home_moved = links home"
  "origin home_moved = origin home"
  "href home_moved = ''https://a.example/about''"
  "prefetch_requests (added home_moved (snd (prefetch (fst home_prefetched, home_moved))))
     = [''https://a.example/'']"
  by (simp_all add: home_moved_def home_prefetched_def prefetch_def allLinks_def has_def add_def
      home_def fresh_router_def defaultOpts_def emit_def added_def prefetch_requests_def)


lemma at_about_eval:
  "prefetched (fst at_about)
     = [''https://a.example/about'', ''https://a.example.evil.test/x'',
        ''https://a.example/'', ''https://a.example/team'']"
  "href (snd at_about) = ''https://a.example/about''"
  "links (snd at_about) = [''https://a.example/'', ''https://a.example/team'']"
  "history_stack (snd at_about) = [''https://a.example/'', ''https://a.example/about'']"
  "added (snd at_home) (snd at_about)
     = [ConsoleLog [zap, ''link''], DispatchEvent ''router:fetch'' None,
        PushState ''https://a.example/about'', Fetch ''https://a.example/about'',
        ReadText, FormatNextDocument, MergeHead, ReplaceBody,
        ExecScript ''app.js'', ExecScript ''stats.js'', ScrollToTop ''link'',
        DispatchEvent ''router:end'' None,
        AppendChild (PrefetchLink ''https://a.example/''),
        AppendChild (PrefetchLink ''https://a.example/team'')]"
  by (simp_all add: at_about_def at_home_eval reconstructDOM_def try_block_def
      fetch_and_merge_def merge_and_settle_def catch_block_def eligible_def click_about_def
      ok_200_def log_def emit_def addToPushState_def formatNextDocument_def mergeHead_def
      replaceBody_def runScripts_def scrollToTop_def transition_start_def prefetch_def
      allLinks_def has_def add_def home_def about_page_def fresh_router_def defaultOpts_def
      added_def Let_def)

lemma example_facts:
  "status error_500 = 500" "text_result error_500 = Inr ''<h1>Internal Server Error</h1>''"
  "text_result ok_200 = Inr ''<title>About</title><body><h1>About</h1></body>''"
  "page_scripts about_page = [''app.js'', ''stats.js'']"
  "page_links about_page = [''https://a.example/'', ''https://a.example/team'']"
  "fetch_fails offline (Error ''Failed to fetch'')"
  "enabled (fst at_home)" "opts (fst at_home) = defaultOpts"
  "trace (snd at_home) = [AddEventListener ''document'' ''click'',
                     AddEventListener ''window'' ''popstate'',
                     AppendChild (PrefetchLink ''https://a.example/about''),
                     AppendChild (PrefetchLink ''https://a.example.evil.test/x''),
                     AppendChild (PrefetchLink ''https://a.example/about'')]"
  "parse (snd at_home) = (\<lambda>html. Inr about_page)"
  "prefetched (fst at_home) = [''https://a.example/about'', ''https://a.example.evil.test/x'']"
  "href (snd at_home) = ''https://a.example/''"
  by (simp_all add: error_500_def ok_200_def about_page_def offline_def fetch_fails_def
      at_home_eval fresh_router_def home_def)

section \<open>The claims\<close>

subsection \<open>C1\<close>

text \<open>
  C1 (as the code has it). On a host that declares \<open>window\<close> and \<open>document\<close>, when
  \<open>window.history\<close> is missing at construction, the constructor does not throw: it
  returns the router, having registered neither the click nor the popstate listener and
  written exactly one console line, the warning. The \<open>enabled\<close> flag of that router is
  true.
\<close>

theorem no_history_warns_once:
  assumes "has_window h" and "has_document h" and "\<not> has_history h"
  shows "\<exists>r' h'. constructor o1 h = (Inr r', h')
           \<and> enabled r'
           \<and> filter is_listener (added h h') = []
           \<and> filter is_console (added h h')
               = [ConsoleWarn ''flamethrower router not supported in this browser or environment'']"
proof -
  let ?r0 = "\<lparr>enabled = True, prefetched = [], opts = merge_opts defaultOpts o1\<rparr>"
  obtain r' h' where c: "constructor o1 h = (Inr r', h')"
    using constructor_returns [OF assms(1,2)] by blast
  obtain h0 where p: "(r', h') = prefetch (?r0, h0)"
    and t: "trace h0 = trace h @ [ConsoleWarn
              ''flamethrower router not supported in this browser or environment'']"
    using constructor_shape [OF c] assms(3) by auto
  have r': "r' = fst (prefetch (?r0, h0))" and h': "h' = snd (prefetch (?r0, h0))"
    using p [symmetric] by simp_all
  have "enabled r'" by (simp add: r' prefetch_router)
  moreover have "filter is_listener (added h h') = []"
    by (auto simp add: h' prefetch_host t added_def filter_empty_conv)
  moreover have "filter is_console (added h h')
      = [ConsoleWarn ''flamethrower router not supported in this browser or environment'']"
    by (auto simp add: h' prefetch_host t added_def filter_empty_conv)
  ultimately show ?thesis using c by blast
qed

theorem no_history_warns_once_witness:
  "has_window home_without_history \<and> has_document home_without_history
   \<and> \<not> has_history home_without_history
   \<and> constructor no_options home_without_history
       = (Inr (fst at_home_without_history), snd at_home_without_history)
   \<and> enabled (fst at_home_without_history)
   \<and> filter is_listener (added home_without_history (snd at_home_without_history)) = []
   \<and> filter is_console (added home_without_history (snd at_home_without_history))
       = [ConsoleWarn ''flamethrower router not supported in this browser or environment'']"
proof -
  have w: "has_window home_without_history" and d: "has_document home_without_history"
    and nh: "\<not> has_history home_without_history"
    by (simp_all add: home_without_history_def home_def)
  show ?thesis
    using w d nh no_history_warns_once [OF w d nh, of no_options]
    by (auto simp add: at_home_without_history_constructed)
qed

text \<open>
  C1 as stated fails. On the home page without \<open>window.history\<close> the constructed router
  is enabled. And on a host that lacks the history because it has no \<open>window\<close> at all,
  the constructor throws: \<open>window?.history\<close> reads the undeclared \<open>window\<close>. On a host
  with a bare \<open>window\<close> and no \<open>document\<close> it throws after the warning, when the prefetch
  pass reads \<open>document.links\<close>.
\<close>

theorem no_history_stays_enabled:
  "has_window home_without_history \<and> \<not> has_history home_without_history
   \<and> constructor no_options home_without_history
       = (Inr (fst at_home_without_history), snd at_home_without_history)
   \<and> enabled (fst at_home_without_history)
   \<and> \<not> has_window no_browser \<and> \<not> has_history no_browser
   \<and> constructor no_options no_browser
       = (Inl (ReferenceError ''window is not defined''), no_browser)
   \<and> has_window window_only \<and> \<not> has_history window_only
   \<and> constructor no_options window_only
       = (Inl (ReferenceError ''document is not defined''),
          window_only\<lparr>trace := [ConsoleWarn
            ''flamethrower router not supported in this browser or environment'']\<rparr>)"
  by (simp add: at_home_without_history_constructed no_browser_throws window_only_throws)
     (simp add: at_home_without_history_def home_without_history_def no_browser_def
        window_only_def home_def fresh_router_def)

subsection \<open>C2\<close>

text \<open>
  C2 (as the code has it). In every eligible cycle of an enabled router in which the fetch
  of the destination fails (\<open>fetch\<close> rejects, or the body cannot be read), the promise
  fulfils with \<open>false\<close>, exactly one \<open>router:error\<close> event is dispatched, built from the
  error, and the error is written with \<open>console.error\<close>. The status of a response is
  never looked at: a response whose body is read and parsed is merged, whatever its
  status, the promise fulfils with \<open>undefined\<close>, \<open>router:end\<close> is dispatched and no
  \<open>router:error\<close>. In both cases the promise is fulfilled, never rejected.
\<close>

theorem failed_fetch_is_caught:
  assumes "enabled r" and "eligible d"
  shows "(fetch_fails net err \<longrightarrow>
            fst (reconstructDOM d net (r, h)) = Fulfilled JSFalse
            \<and> filter (is_event ''router:error'') (added h (snd (snd (reconstructDOM d net (r, h)))))
                = [DispatchEvent ''router:error'' (Some err)]
            \<and> ConsoleError boom_router_fetch_failed err
                \<in> set (added h (snd (snd (reconstructDOM d net (r, h))))))
         \<and> (\<forall>res html p.
              net = Response res \<and> text_result res = Inr html \<and> parse h html = Inr p \<longrightarrow>
                fst (reconstructDOM d net (r, h)) = Fulfilled Undefined
                \<and> filter (is_event ''router:error'')
                     (added h (snd (snd (reconstructDOM d net (r, h))))) = []
                \<and> DispatchEvent ''router:end'' None
                     \<in> set (added h (snd (snd (reconstructDOM d net (r, h))))))"
proof (intro conjI impI allI)
  assume f: "fetch_fails net err"
  show "fst (reconstructDOM d net (r, h)) = Fulfilled JSFalse"
    using f by (simp add: started_cycle [OF assms] fetch_and_merge_cases fetch_fails_def
        split: fetch_outcome.splits)
  show "filter (is_event ''router:error'') (added h (snd (snd (reconstructDOM d net (r, h)))))
          = [DispatchEvent ''router:error'' (Some err)]"
    using f by (simp add: started_cycle [OF assms] fetch_and_merge_cases fetch_fails_def
        catch_block_def Let_def emit_simps at_fetch_simps added_def
        split: fetch_outcome.splits)
  show "ConsoleError boom_router_fetch_failed err
          \<in> set (added h (snd (snd (reconstructDOM d net (r, h)))))"
    using f by (simp add: started_cycle [OF assms] fetch_and_merge_cases fetch_fails_def
        catch_block_def Let_def emit_simps at_fetch_simps added_def
        split: fetch_outcome.splits)
next
  fix res html p
  assume ok: "net = Response res \<and> text_result res = Inr html \<and> parse h html = Inr p"
  let ?h = "emit FormatNextDocument (emit ReadText (at_fetch d r h))"
  obtain us where t:
    "trace (snd (merge_and_settle d p (r, ?h)))
     = trace ?h @ [MergeHead]
        @ (if opt_pageTransitions (opts r) \<and> can_transition ?h then [TransitionStart] else [])
        @ [ReplaceBody] @ map ExecScript (page_scripts p)
        @ (if rc_type d \<in> set [''link'', ''go''] then [ScrollToTop (rc_type d)] else [])
        @ [DispatchEvent ''router:end'' None]
        @ map (\<lambda>u. AppendChild (PrefetchLink u)) us
        @ (if opt_log (opts r) then [ConsoleTimeEnd stopwatch] else [])"
    using merge_and_settle_trace by blast
  have run: "reconstructDOM d net (r, h) = (Fulfilled Undefined, merge_and_settle d p (r, ?h))"
    using ok by (simp add: started_cycle [OF assms] fetch_and_merge_cases)
  show "fst (reconstructDOM d net (r, h)) = Fulfilled Undefined"
    by (simp add: run)
  show "filter (is_event ''router:error'')
          (added h (snd (snd (reconstructDOM d net (r, h))))) = []"
    by (simp add: run t added_def emit_simps at_fetch_simps filter_empty_conv)
  show "DispatchEvent ''router:end'' None
          \<in> set (added h (snd (snd (reconstructDOM d net (r, h)))))"
    by (simp add: run t added_def emit_simps at_fetch_simps)
qed

theorem failed_fetch_is_caught_witness:
  "enabled (fst at_home) \<and> eligible click_about
   \<and> fetch_fails offline (Error ''Failed to fetch'')
   \<and> fst (reconstructDOM click_about offline at_home) = Fulfilled JSFalse
   \<and> filter (is_event ''router:error'')
        (added (snd at_home) (snd (snd (reconstructDOM click_about offline at_home))))
       = [DispatchEvent ''router:error'' (Some (Error ''Failed to fetch''))]
   \<and> text_result ok_200 = Inr ''<title>About</title><body><h1>About</h1></body>''
   \<and> parse (snd at_home) ''<title>About</title><body><h1>About</h1></body>'' = Inr about_page
   \<and> fst (reconstructDOM click_about (Response ok_200) at_home) = Fulfilled Undefined
   \<and> DispatchEvent ''router:end'' None
        \<in> set (added (snd at_home) (snd (snd (reconstructDOM click_about (Response ok_200) at_home))))"
proof -
  have en: "enabled (fst at_home)" by (simp add: example_facts)
  have el: "eligible click_about" by (simp add: click_simps)
  have ff: "fetch_fails offline (Error ''Failed to fetch'')" by (simp add: example_facts)
  have ok: "text_result ok_200 = Inr ''<title>About</title><body><h1>About</h1></body>''"
    "parse (snd at_home) ''<title>About</title><body><h1>About</h1></body>'' = Inr about_page"
    by (simp_all add: example_facts)
  show ?thesis
    using en el ff ok
      failed_fetch_is_caught [OF en el, of offline "Error ''Failed to fetch''" "snd at_home"]
      failed_fetch_is_caught [OF en el, of "Response ok_200" "Error ''Failed to fetch''"
        "snd at_home"]
    by simp
qed

text \<open>
  C2 as stated fails: a response with status 500 is handled like any other; the promise
  fulfils with \<open>undefined\<close>, \<open>router:end\<close> is dispatched and \<open>router:error\<close> is not.
\<close>

theorem http_500_is_no_failure:
  "status error_500 = 500
   \<and> enabled (fst at_home) \<and> eligible click_about
   \<and> fst (reconstructDOM click_about (Response error_500) at_home) = Fulfilled Undefined
   \<and> filter (is_event ''router:error'')
        (added (snd at_home) (snd (snd (reconstructDOM click_about (Response error_500) at_home))))
       = []
   \<and> filter (is_event ''router:end'')
        (added (snd at_home) (snd (snd (reconstructDOM click_about (Response error_500) at_home))))
       = [DispatchEvent ''router:end'' None]"
  by (simp add: at_home_eval reconstructDOM_def try_block_def
      fetch_and_merge_def merge_and_settle_def catch_block_def eligible_def click_about_def
      error_500_def log_def emit_def addToPushState_def formatNextDocument_def mergeHead_def
      replaceBody_def runScripts_def scrollToTop_def transition_start_def prefetch_def
      allLinks_def has_def add_def home_def about_page_def fresh_router_def defaultOpts_def
      added_def Let_def)

subsection \<open>C3\<close>

text \<open>
  C3 (as the code has it). At every reachable state the prefetched set holds each URL
  once, and every URL in it contains the document's origin as a substring and contains
  no \<open>#\<close>. No operation removes an element: a step only appends. A URL is added only
  while it differs from the document's (non-empty) URL of that moment, at construction as
  in a cycle; it stays in the set when the document later moves to it.
\<close>

theorem prefetched_invariant:
  assumes "reachable s"
  shows "distinct (prefetched (fst s))
         \<and> (\<forall>u \<in> set (prefetched (fst s)).
               str_includes u (origin (snd s)) \<and> \<not> str_includes u ''#'')
         \<and> (\<forall>s'. step s s' \<longrightarrow>
               prefix (prefetched (fst s)) (prefetched (fst s'))
               \<and> (\<forall>u \<in> set (prefetched (fst s')) - set (prefetched (fst s)).
                     href (snd s') \<noteq> [] \<longrightarrow> u \<noteq> href (snd s')))
         \<and> (\<forall>o1 h. constructor o1 h = (Inr (fst s), snd s) \<longrightarrow>
               (\<forall>u \<in> set (prefetched (fst s)). href (snd s) \<noteq> [] \<longrightarrow> u \<noteq> href (snd s)))"
proof -
  have "u \<noteq> href (snd s)"
    if "constructor o1 h = (Inr (fst s), snd s)" and "u \<in> set (prefetched (fst s))"
      and "href (snd s) \<noteq> []"
    for o1 h u
    using constructor_prefetched(2) [OF that(1), of u] that(2,3)
    by (simp add: constructor_prefetched(4) [OF that(1)])
  then show ?thesis
    using reachable_invariant [OF assms] step_grows(2,4) by blast
qed

theorem prefetched_invariant_witness:
  "reachable at_home \<and> step at_home at_about
   \<and> distinct (prefetched (fst at_home))
   \<and> prefix (prefetched (fst at_home)) (prefetched (fst at_about))
   \<and> ''https://a.example/team'' \<in> set (prefetched (fst at_about)) - set (prefetched (fst at_home))
   \<and> href (snd at_about) \<noteq> []
   \<and> ''https://a.example/team'' \<noteq> href (snd at_about)
   \<and> constructor no_options home = (Inr (fst at_home), snd at_home)
   \<and> ''https://a.example/about'' \<in> set (prefetched (fst at_home))
   \<and> href (snd at_home) \<noteq> []
   \<and> ''https://a.example/about'' \<noteq> href (snd at_home)"
proof -
  have r: "reachable at_home" using reachable.init [OF at_home_constructed] by simp
  have s: "step at_home at_about" by (simp add: at_about_def step.cycle)
  have new: "''https://a.example/team''
               \<in> set (prefetched (fst at_about)) - set (prefetched (fst at_home))"
    "href (snd at_about) \<noteq> []" "''https://a.example/about'' \<in> set (prefetched (fst at_home))"
    "href (snd at_home) \<noteq> []"
    by (simp_all add: at_about_eval example_facts)
  have c: "constructor no_options home = (Inr (fst at_home), snd at_home)"
    by (rule at_home_constructed)
  show ?thesis
    using r s new c prefetched_invariant [OF r] by blast
qed

text \<open>
  C3 as stated fails: after the click on the prefetched link to the about page has been
  served, the document's URL is in the prefetched set.
\<close>

theorem prefetched_holds_current_url:
  "reachable at_about \<and> href (snd at_about) \<in> set (prefetched (fst at_about))"
proof -
  have "reachable at_home" using reachable.init [OF at_home_constructed] by simp
  moreover have "step at_home at_about" by (simp add: at_about_def step.cycle)
  ultimately have "reachable at_about" by (rule reachable.after)
  then show ?thesis by (simp add: at_about_eval)
qed

subsection \<open>C4\<close>




subsection \<open>C5\<close>

text \<open>
  C5. An intent whose \<open>next\<close> equals its \<open>prev\<close> is skipped: the only effect is one
  console line, so no fetch is issued, no \<open>router:fetch\<close> event is dispatched and the
  history stack is as before; the promise fulfils with \<open>undefined\<close>.
\<close>

theorem same_url_is_skipped:
  "rc_next d = rc_prev d \<Longrightarrow>
     reconstructDOM d net (r, h)
       = (Fulfilled Undefined,
          (r, h\<lparr>trace := trace h
                  @ [ConsoleLog (if enabled r then [zap, rc_type d] else [''router disabled''])]\<rparr>))"
  by (simp add: reconstructDOM_def try_block_def eligible_def log_def emit_def)

theorem same_url_is_skipped_witness:
  "rc_next click_home = rc_prev click_home
   \<and> reconstructDOM click_home (Response ok_200) (fresh_router, home)
       = (Fulfilled Undefined, (fresh_router, home\<lparr>trace := [ConsoleLog [zap, ''link'']]\<rparr>))"
  using same_url_is_skipped [of click_home "Response ok_200" fresh_router home]
  by (simp add: click_simps fresh_router_simps home_simps)

subsection \<open>C6\<close>

text \<open>
  C6. A navigation intent that arrives while \<open>enabled\<close> is false does nothing but log
  \<open>router disabled\<close>: the router and the host are as before apart from that one console
  line, so nothing is fetched, the history stack is not touched and none of the three
  events is dispatched; the promise fulfils with \<open>undefined\<close>.
\<close>

theorem disabled_is_noop:
  "\<not> enabled r \<Longrightarrow>
     reconstructDOM d net (r, h)
       = (Fulfilled Undefined, (r, h\<lparr>trace := trace h @ [ConsoleLog [''router disabled'']]\<rparr>))"
  by (simp add: reconstructDOM_def log_def emit_def)

theorem disabled_is_noop_witness:
  "\<not> enabled (fresh_router\<lparr>enabled := False\<rparr>)
   \<and> fst (reconstructDOM click_about (Response ok_200) (fresh_router\<lparr>enabled := False\<rparr>, home))
       = Fulfilled Undefined
   \<and> trace (snd (snd (reconstructDOM click_about (Response ok_200)
                          (fresh_router\<lparr>enabled := False\<rparr>, home))))
       = [ConsoleLog [''router disabled'']]
   \<and> history_stack (snd (snd (reconstructDOM click_about (Response ok_200)
                          (fresh_router\<lparr>enabled := False\<rparr>, home))))
       = [''https://a.example/'']"
  using disabled_is_noop [of "fresh_router\<lparr>enabled := False\<rparr>" click_about "Response ok_200" home]
  by (simp add: home_simps)

subsection \<open>C7\<close>

text \<open>
  C7. In every eligible cycle of an enabled router, whatever the network then delivers,
  \<open>next\<close> is pushed onto the history stack immediately before the fetch is issued; no
  other push or fetch follows, and the entry is on the stack when the cycle ends, also
  when the fetch fails.
\<close>

theorem history_pushed_before_fetch:
  assumes "enabled r" and "eligible d"
  shows "\<exists>rest.
           trace (snd (snd (reconstructDOM d net (r, h))))
             = trace h @ [ConsoleLog [zap, rc_type d]]
               @ (if opt_log (opts r) then [ConsoleTime stopwatch] else [])
               @ [DispatchEvent ''router:fetch'' None, PushState (rc_next d), Fetch (rc_next d)]
               @ rest
           \<and> (\<forall>e \<in> set rest. \<not> is_fetch_or_push e)
           \<and> history_stack (snd (snd (reconstructDOM d net (r, h))))
               = history_stack h @ [rc_next d]"
proof (cases net)
  case (NetworkFailure err)
  show ?thesis
    by (simp add: started_cycle [OF assms] fetch_and_merge_cases NetworkFailure catch_block_def
        Let_def emit_simps at_fetch_simps)
next
  case (Response res)
  show ?thesis
  proof (cases "text_result res")
    case (Inl err)
    show ?thesis
      by (simp add: started_cycle [OF assms] fetch_and_merge_cases Response Inl catch_block_def
          Let_def emit_simps at_fetch_simps)
  next
    case (Inr html)
    note html = this
    show ?thesis
    proof (cases "parse h html")
      case (Inl err)
      show ?thesis
        by (simp add: started_cycle [OF assms] fetch_and_merge_cases Response html Inl
            catch_block_def Let_def emit_simps at_fetch_simps)
    next
      case (Inr p)
      obtain us where
        "trace (snd (merge_and_settle d p
            (r, emit FormatNextDocument (emit ReadText (at_fetch d r h)))))
         = trace (emit FormatNextDocument (emit ReadText (at_fetch d r h))) @ [MergeHead]
        @ (if opt_pageTransitions (opts r)
              \<and> can_transition (emit FormatNextDocument (emit ReadText (at_fetch d r h)))
           then [TransitionStart] else [])
        @ [ReplaceBody] @ map ExecScript (page_scripts p)
        @ (if rc_type d \<in> set [''link'', ''go''] then [ScrollToTop (rc_type d)] else [])
        @ [DispatchEvent ''router:end'' None]
        @ map (\<lambda>u. AppendChild (PrefetchLink u)) us
        @ (if opt_log (opts r) then [ConsoleTimeEnd stopwatch] else [])"
        using merge_and_settle_trace by blast
      then show ?thesis
        by (auto simp add: started_cycle [OF assms] fetch_and_merge_cases Response html Inr
            merge_and_settle_state emit_simps at_fetch_simps)
    qed
  qed
qed

theorem history_pushed_before_fetch_witness:
  "enabled fresh_router \<and> eligible click_about
   \<and> (\<exists>rest. trace (snd (snd (reconstructDOM click_about offline (fresh_router, home))))
         = [ConsoleLog [zap, ''link''], DispatchEvent ''router:fetch'' None,
            PushState ''https://a.example/about'', Fetch ''https://a.example/about''] @ rest
         \<and> (\<forall>e \<in> set rest. \<not> is_fetch_or_push e))
   \<and> history_stack (snd (snd (reconstructDOM click_about offline (fresh_router, home))))
       = [''https://a.example/'', ''https://a.example/about'']"
proof -
  have en: "enabled fresh_router" by (simp add: fresh_router_simps)
  have el: "eligible click_about" by (simp add: click_simps)
  show ?thesis
    using en el history_pushed_before_fetch [OF en el, of offline home]
    by (simp add: click_simps fresh_router_simps home_simps) blast
qed

subsection \<open>C8\<close>

text \<open>
  C8. In every successful cycle (the response is read and parsed) the effects of the cycle
  are: some steps that neither replace the body nor run a script, then the replacement of
  the body, then one execution of each script element of the fetched body, in order, then
  steps that again neither replace the body nor run a script. So every script of the new
  body runs exactly once, and after the body has been replaced.
\<close>

theorem scripts_run_once_after_body:
  assumes "enabled r" and "eligible d"
    and "net = Response res" and "text_result res = Inr html" and "parse h html = Inr p"
  shows "fst (reconstructDOM d net (r, h)) = Fulfilled Undefined
         \<and> (\<exists>before after.
               added h (snd (snd (reconstructDOM d net (r, h))))
                 = before @ [ReplaceBody] @ map ExecScript (page_scripts p) @ after
               \<and> (\<forall>e \<in> set before. \<not> is_body_step e)
               \<and> (\<forall>e \<in> set after. \<not> is_body_step e))"
proof -
  let ?h = "emit FormatNextDocument (emit ReadText (at_fetch d r h))"
  let ?before = "[ConsoleLog [zap, rc_type d]]
        @ (if opt_log (opts r) then [ConsoleTime stopwatch] else [])
        @ [DispatchEvent ''router:fetch'' None, PushState (rc_next d), Fetch (rc_next d),
           ReadText, FormatNextDocument, MergeHead]
        @ (if opt_pageTransitions (opts r) \<and> can_transition h then [TransitionStart] else [])"
  obtain us where t:
    "trace (snd (merge_and_settle d p (r, ?h)))
     = trace ?h @ [MergeHead]
        @ (if opt_pageTransitions (opts r) \<and> can_transition ?h then [TransitionStart] else [])
        @ [ReplaceBody] @ map ExecScript (page_scripts p)
        @ (if rc_type d \<in> set [''link'', ''go''] then [ScrollToTop (rc_type d)] else [])
        @ [DispatchEvent ''router:end'' None]
        @ map (\<lambda>u. AppendChild (PrefetchLink u)) us
        @ (if opt_log (opts r) then [ConsoleTimeEnd stopwatch] else [])"
    using merge_and_settle_trace by blast
  let ?after = "(if rc_type d \<in> set [''link'', ''go''] then [ScrollToTop (rc_type d)] else [])
        @ [DispatchEvent ''router:end'' None]
        @ map (\<lambda>u. AppendChild (PrefetchLink u)) us
        @ (if opt_log (opts r) then [ConsoleTimeEnd stopwatch] else [])"
  have run: "reconstructDOM d net (r, h) = (Fulfilled Undefined, merge_and_settle d p (r, ?h))"
    using assms(3-5) by (simp add: started_cycle [OF assms(1,2)] fetch_and_merge_cases)
  have split: "added h (snd (snd (reconstructDOM d net (r, h))))
          = ?before @ [ReplaceBody] @ map ExecScript (page_scripts p) @ ?after"
    by (simp add: run t added_def emit_simps at_fetch_simps)
  have before: "\<forall>e \<in> set ?before. \<not> is_body_step e" by auto
  have after: "\<forall>e \<in> set ?after. \<not> is_body_step e" by auto
  show ?thesis
  proof (intro conjI)
    show "fst (reconstructDOM d net (r, h)) = Fulfilled Undefined" by (simp add: run)
    show "\<exists>before after.
               added h (snd (snd (reconstructDOM d net (r, h))))
                 = before @ [ReplaceBody] @ map ExecScript (page_scripts p) @ after
               \<and> (\<forall>e \<in> set before. \<not> is_body_step e)
               \<and> (\<forall>e \<in> set after. \<not> is_body_step e)"
      by (rule exI [of _ ?before], rule exI [of _ ?after], intro conjI,
          rule split, rule before, rule after)
  qed
qed

theorem scripts_run_once_after_body_witness:
  "enabled (fst at_home) \<and> eligible click_about
   \<and> text_result ok_200 = Inr ''<title>About</title><body><h1>About</h1></body>''
   \<and> parse (snd at_home) ''<title>About</title><body><h1>About</h1></body>'' = Inr about_page
   \<and> (\<exists>before after.
         added (snd at_home) (snd at_about)
           = before @ [ReplaceBody, ExecScript ''app.js'', ExecScript ''stats.js''] @ after
         \<and> (\<forall>e \<in> set before. \<not> is_body_step e)
         \<and> (\<forall>e \<in> set after. \<not> is_body_step e))"
proof -
  have en: "enabled (fst at_home)" by (simp add: example_facts)
  have el: "eligible click_about" by (simp add: click_simps)
  have ok: "text_result ok_200 = Inr ''<title>About</title><body><h1>About</h1></body>''"
    "parse (snd at_home) ''<title>About</title><body><h1>About</h1></body>'' = Inr about_page"
    by (simp_all add: example_facts)
  show ?thesis
    using en el ok scripts_run_once_after_body [OF en el refl ok]
    by (simp add: at_about_def example_facts)
qed

subsection \<open>C9\<close>

text \<open>
  C9 (as the code has it). A second prefetch pass over an unchanged link set at an
  unchanged location (same links, same \<open>href\<close> and origin) changes nothing: it appends no
  link element, so issues no request, and leaves the prefetched set as it is. After the
  first pass every URL that passed the filter is in the set exactly once.
\<close>

theorem prefetch_twice:
  assumes "prefetch (r, h) = (r1, h1)"
    and "links h2 = links h" and "href h2 = href h" and "origin h2 = origin h"
  shows "prefetch (r1, h2) = (r1, h2)
         \<and> links h1 = links h \<and> href h1 = href h \<and> origin h1 = origin h
         \<and> (opt_prefetch (opts r) \<longrightarrow>
              (\<forall>u \<in> set (allLinks r h). count_list (prefetched r1) u = 1))"
proof -
  have r1: "r1 = fst (prefetch (r, h))" and h1: "h1 = snd (prefetch (r, h))"
    using assms(1) by simp_all
  have same: "links h1 = links h \<and> href h1 = href h \<and> origin h1 = origin h"
    by (simp add: h1 prefetch_host)
  have again: "prefetch (r1, h2) = (r1, h2)"
  proof (cases "opt_prefetch (opts r)")
    case True
    have "set (prefetched r1) = set (prefetched r) \<union> set (allLinks r h)"
      by (simp add: r1 prefetch_router True)
    then have "allLinks r1 h2 = []"
      using assms(2-4) by (rule allLinks_after [rotated 3])
    then show ?thesis by (simp add: prefetch_def)
  next
    case False
    then have "\<not> opt_prefetch (opts r1)" by (simp add: r1 prefetch_router)
    then show ?thesis by (simp add: prefetch_def)
  qed
  have once: "count_list (prefetched r1) u = 1"
    if "opt_prefetch (opts r)" and "u \<in> set (allLinks r h)" for u
  proof -
    have "u \<notin> set (prefetched r)" using that(2) by (simp add: allLinks_iff)
    then show ?thesis
      using that by (simp add: r1 prefetch_def forEach_link_count count_list_0_iff)
  qed
  show ?thesis using same again once by blast
qed

theorem prefetch_twice_witness:
  "prefetch (prefetch (fresh_router, home)) = prefetch (fresh_router, home)
   \<and> ''https://a.example/about'' \<in> set (allLinks fresh_router home)
   \<and> count_list (prefetched (fst (prefetch (fresh_router, home)))) ''https://a.example/about'' = 1"
proof -
  obtain r1 h1 where p: "prefetch (fresh_router, home) = (r1, h1)"
    by (cases "prefetch (fresh_router, home)")
  have h1: "h1 = snd (prefetch (fresh_router, home))" using p by simp
  have on: "opt_prefetch (opts fresh_router)" by (simp add: fresh_router_simps)
  have about: "''https://a.example/about'' \<in> set (allLinks fresh_router home)"
    by (simp add: allLinks_def fresh_router_simps home_simps has_def)
  have same: "links h1 = links home" "href h1 = href home" "origin h1 = origin home"
    by (simp_all add: h1 prefetch_host)
  show ?thesis
    using prefetch_twice [OF p same] on about by (simp add: p)
qed

text \<open>
  C9 as stated fails: the link set alone does not fix the outcome of the second pass.
  After the first pass on the home page, with the same links but the location moved to
  the about page, the link to the home page is no longer the current page, and the
  second pass issues a request for it.
\<close>

theorem second_pass_after_move:
  "prefetch (fresh_router, home) = home_prefetched
   \<and> links home_moved = links home
   \<and> origin home_moved = origin home
   \<and> href home_moved = ''https://a.example/about''
   \<and> href home = ''https://a.example/''
   \<and> prefetch_requests (added home_moved (snd (prefetch (fst home_prefetched, home_moved))))
       = [''https://a.example/'']"
proof -
  have first: "prefetch (fresh_router, home) = home_prefetched"
    by (simp add: home_prefetched_def)
  have here: "href home = ''https://a.example/''" by (simp add: home_simps)
  show ?thesis
    by (intro conjI first here home_moved_eval(2) home_moved_eval(3) home_moved_eval(4)
        home_moved_eval(5))
qed

subsection \<open>C10\<close>

text \<open>
  C10. With the prefetch option off the prefetch pass returns its state unchanged; a
  cycle, whatever its outcome, leaves the router as it is and appends no prefetch link;
  and a construction with \<open>prefetch: false\<close> leaves the head of the document untouched and
  appends no prefetch link, the router it returns has an empty prefetched set, and on a
  host with a window and a document it does return one.
\<close>

theorem prefetch_off_is_noop:
  assumes "\<not> opt_prefetch (opts r)"
  shows "prefetch (r, h) = (r, h)
         \<and> fst (snd (reconstructDOM d net (r, h))) = r
         \<and> prefetch_requests (added h (snd (snd (reconstructDOM d net (r, h))))) = []
         \<and> (prefetch_opt o1 = Some (JSBool False) \<longrightarrow>
              head (snd (constructor o1 h0)) = head h0
              \<and> prefetch_requests (added h0 (snd (constructor o1 h0))) = []
              \<and> (\<forall>r0. fst (constructor o1 h0) = Inr r0 \<longrightarrow>
                    prefetched r0 = [] \<and> \<not> opt_prefetch (opts r0))
              \<and> (has_window h0 \<and> has_document h0 \<longrightarrow>
                    (\<exists>r0. fst (constructor o1 h0) = Inr r0)))"
proof -
  have pass: "prefetch (r', h') = (r', h')" if "\<not> opt_prefetch (opts r')" for r' h'
    using that by (simp add: prefetch_def)
  have "fst (snd (reconstructDOM d net (r, h))) = r"
    using cycle_router [of d net r h] assms by (auto simp: pass)
  moreover obtain t where "trace (snd (snd (reconstructDOM d net (r, h)))) = trace h @ t"
    and "prefetch_requests t = []"
    using cycle_trace [of d net r h] assms by blast
  then have "prefetch_requests (added h (snd (snd (reconstructDOM d net (r, h))))) = []"
    by (simp add: added_append)
  moreover have "head (snd (constructor o1 h0)) = head h0
              \<and> prefetch_requests (added h0 (snd (constructor o1 h0))) = []
              \<and> (\<forall>r0. fst (constructor o1 h0) = Inr r0 \<longrightarrow>
                    prefetched r0 = [] \<and> \<not> opt_prefetch (opts r0))
              \<and> (has_window h0 \<and> has_document h0 \<longrightarrow>
                    (\<exists>r0. fst (constructor o1 h0) = Inr r0))"
    if "prefetch_opt o1 = Some (JSBool False)"
    using that
    by (auto simp add: constructor_def Let_def merge_opts_def pass emit_simps added_def
        prefetch_requests_def)
  ultimately show ?thesis using pass [OF assms] by blast
qed

theorem prefetch_off_is_noop_witness:
  "\<not> opt_prefetch (opts (fst at_home_prefetch_off))
   \<and> prefetch_opt prefetch_off = Some (JSBool False)
   \<and> has_window home \<and> has_document home
   \<and> constructor prefetch_off home = (Inr (fst at_home_prefetch_off), snd at_home_prefetch_off)
   \<and> prefetch at_home_prefetch_off = at_home_prefetch_off
   \<and> prefetched (fst at_home_prefetch_off) = []
   \<and> head (snd at_home_prefetch_off) = head home
   \<and> prefetch_requests (added home (snd at_home_prefetch_off)) = []
   \<and> prefetched (fst (snd (reconstructDOM click_about (Response ok_200) at_home_prefetch_off)))
       = []
   \<and> prefetch_requests
        (added (snd at_home_prefetch_off)
           (snd (snd (reconstructDOM click_about (Response ok_200) at_home_prefetch_off)))) = []"
proof -
  have off: "prefetch_opt prefetch_off = Some (JSBool False)" by (simp add: prefetch_off_def)
  have wd: "has_window home" "has_document home" by (simp_all add: home_simps)
  have r: "\<not> opt_prefetch (opts (fst at_home_prefetch_off))"
    by (simp add: at_home_prefetch_off_def fresh_router_def defaultOpts_def)
  note c = at_home_prefetch_off_constructed
  show ?thesis
    using off wd r c
      prefetch_off_is_noop [OF r, of "snd at_home_prefetch_off" click_about "Response ok_200"
        prefetch_off home]
    by (simp add: c)
qed

end
